theory Spec2Isabelle
  imports Main "HOL-Library.Multiset" "HOL-Library.Product_Lexorder"
begin

section \<open>Data model of the task manager (App.js)\<close>

text \<open>
  A task is the JavaScript object built by \<open>addTask\<close> and rewritten by \<open>updateTask\<close>.
  Numbers that come from the clock (\<open>Date.now()\<close>, \<open>new Date()\<close>) are time values in
  milliseconds; \<open>createdAt\<close> and \<open>completedAt\<close> hold ISO strings in the source, which
  \<open>new Date(...)\<close> maps back to the same time value, so they are kept as time values.

  The text a user types (title, description, search term) is a JavaScript string: a
  list of UTF-16 code units, here natural numbers; \<open>units\<close> writes an ASCII literal as
  such a list. \<open>priority\<close> and the filter are option values of select boxes that the
  source only compares with literals; they stay strings.

  \<open>dueDate\<close> is the value of an \<open>input type="date"\<close>: the empty string or a valid
  calendar date. Every use in the source first tests its truthiness, under which the
  empty string and a missing key behave alike; both are \<open>None\<close>, a date is \<open>Some\<close> of
  its time value. \<open>description\<close> is \<open>None\<close> when the key is missing; the empty string
  is kept, and its falsiness is written out where the source tests it.
\<close>

type_synonym jsstring = "nat list"

definition units :: "string \<Rightarrow> jsstring" where
  "units s = map of_char s"

datatype completedAt_field = Absent | Null | Stamp int

record task =
  id_t :: int
  title :: jsstring
  description :: "jsstring option"
  priority :: string
  dueDate :: "int option"
  completed :: bool
  createdAt :: int
  completedAt :: completedAt_field

text \<open>\<open>formData\<close> of \<open>TaskForm\<close>: always exactly these four keys.\<close>

record formData =
  f_title :: jsstring
  f_description :: jsstring
  f_priority :: string
  f_dueDate :: "int option"

text \<open>
  The second argument of \<open>updateTask\<close> is a partial object: a key is either missing
  (\<open>None\<close>) or carries the new value.
\<close>

record updates =
  u_id :: "int option"
  u_title :: "jsstring option"
  u_description :: "jsstring option option"
  u_priority :: "string option"
  u_dueDate :: "int option option"
  u_completed :: "bool option"
  u_createdAt :: "int option"
  u_completedAt :: "completedAt_field option"

datatype error = TypeError

definition no_updates :: updates where
  "no_updates = \<lparr>u_id = None, u_title = None, u_description = None, u_priority = None,
     u_dueDate = None, u_completed = None, u_createdAt = None, u_completedAt = None\<rparr>"

text \<open>
  A JavaScript number, as far as the comparator of the sort produces one: an integer or
  \<open>NaN\<close>.
\<close>

datatype number = NaN | Num int

text \<open>
  What the program takes from the JavaScript engine and the source does not contain:
  the Unicode case mapping of \<open>String.prototype.toLowerCase\<close> for text that is not
  ASCII, and the algorithm of \<open>Array.prototype.sort\<close>. Both are parameters of the
  model; the rest of the built-in functions the program calls is written out.
\<close>

record engine =
  unicode_lower :: "jsstring \<Rightarrow> jsstring"
  array_sort :: "(task \<Rightarrow> task \<Rightarrow> number) \<Rightarrow> task list \<Rightarrow> task list"

section \<open>Task store\<close>

text \<open>Object spread \<open>{ ...task, ...updates }\<close>: the keys of \<open>updates\<close> win.\<close>

definition spread :: "task \<Rightarrow> updates \<Rightarrow> task" where
  "spread t u =
     \<lparr>id_t = (case u_id u of None \<Rightarrow> id_t t | Some v \<Rightarrow> v),
      title = (case u_title u of None \<Rightarrow> title t | Some v \<Rightarrow> v),
      description = (case u_description u of None \<Rightarrow> description t | Some v \<Rightarrow> v),
      priority = (case u_priority u of None \<Rightarrow> priority t | Some v \<Rightarrow> v),
      dueDate = (case u_dueDate u of None \<Rightarrow> dueDate t | Some v \<Rightarrow> v),
      completed = (case u_completed u of None \<Rightarrow> completed t | Some v \<Rightarrow> v),
      createdAt = (case u_createdAt u of None \<Rightarrow> createdAt t | Some v \<Rightarrow> v),
      completedAt = (case u_completedAt u of None \<Rightarrow> completedAt t | Some v \<Rightarrow> v)\<rparr>"

text \<open>
  \<open>addTask\<close>: \<open>{ id: Date.now(), ...taskData, completed: false, createdAt: new Date().toISOString() }\<close>
  appended to the collection. The two clock readings are the arguments \<open>now_id\<close> and
  \<open>now_created\<close>. No \<open>completedAt\<close> key is written.
\<close>

definition addTask :: "int \<Rightarrow> int \<Rightarrow> formData \<Rightarrow> task list \<Rightarrow> task list" where
  "addTask now_id now_created taskData tasks =
     tasks @ [\<lparr>id_t = now_id,
               title = f_title taskData,
               description = Some (f_description taskData),
               priority = f_priority taskData,
               dueDate = f_dueDate taskData,
               completed = False,
               createdAt = now_created,
               completedAt = Absent\<rparr>]"

definition updateTask :: "int \<Rightarrow> updates \<Rightarrow> task list \<Rightarrow> task list" where
  "updateTask i u tasks = map (\<lambda>t. if id_t t = i then spread t u else t) tasks"

text \<open>\<open>deleteTask\<close>: \<open>confirm\<close> is the answer of \<open>window.confirm\<close>.\<close>

definition deleteTask :: "bool \<Rightarrow> int \<Rightarrow> task list \<Rightarrow> task list" where
  "deleteTask confirm i tasks = (if confirm then filter (\<lambda>t. id_t t \<noteq> i) tasks else tasks)"

text \<open>
  \<open>toggleComplete\<close>: \<open>tasks.find\<close> yields \<open>undefined\<close> when no task has the id, and
  reading \<open>task.completed\<close> of \<open>undefined\<close> throws a TypeError before \<open>updateTask\<close> is
  reached. \<open>now\<close> is the clock reading of \<open>new Date()\<close>, taken only when the task
  becomes completed. The interface calls \<open>toggleComplete\<close> only from the card of a task
  of the collection.
\<close>

definition toggleComplete :: "int \<Rightarrow> int \<Rightarrow> task list \<Rightarrow> error + task list" where
  "toggleComplete now i tasks =
     (case find (\<lambda>t. id_t t = i) tasks of
        None \<Rightarrow> Inl TypeError
      | Some t \<Rightarrow>
          Inr (updateTask i
                 (no_updates\<lparr>u_completed := Some (\<not> completed t),
                             u_completedAt := Some (if \<not> completed t then Stamp now else Null)\<rparr>)
                 tasks))"

section \<open>Form controller and user events\<close>

text \<open>
  \<open>handleSubmit\<close> of \<open>TaskForm\<close>: \<open>if (!formData.title.trim()) return; onSubmit(formData)\<close>.
  \<open>String.prototype.trim\<close> removes white space and line terminators at both ends: the
  code units 9 to 13, 32, 160 (no-break space), 5760, 8192 to 8202, 8232, 8233, 8239,
  8287, 12288 and 65279 (byte order mark).
\<close>

definition isWhiteSpace :: "nat \<Rightarrow> bool" where
  "isWhiteSpace u =
     (u \<in> set [9, 10, 11, 12, 13, 32, 160, 5760, 8232, 8233, 8239, 8287, 12288, 65279]
      \<or> (8192 \<le> u \<and> u \<le> 8202))"

definition trim :: "jsstring \<Rightarrow> jsstring" where
  "trim s = rev (dropWhile isWhiteSpace (rev (dropWhile isWhiteSpace s)))"

definition handleSubmit ::
  "(formData \<Rightarrow> task list \<Rightarrow> task list) \<Rightarrow> formData \<Rightarrow> task list \<Rightarrow> task list" where
  "handleSubmit onSubmit fd tasks = (if trim (f_title fd) = [] then tasks else onSubmit fd tasks)"

text \<open>The form data handed to \<open>updateTask\<close> as the partial object of an edit.\<close>

definition formUpdates :: "formData \<Rightarrow> updates" where
  "formUpdates fd =
     no_updates\<lparr>u_title := Some (f_title fd),
                u_description := Some (Some (f_description fd)),
                u_priority := Some (f_priority fd),
                u_dueDate := Some (f_dueDate fd)\<rparr>"

text \<open>
  The four user actions that reach the store, each with what it reads from outside:
  the clock readings and the answer of the confirmation prompt.
  \<^item> \<open>SubmitAdd fd now_id now_created\<close>: submit of the form in add mode (\<open>onSubmit = addTask\<close>);
  \<^item> \<open>SubmitEdit i fd\<close>: submit of the form while editing the task with id \<open>i\<close>;
  \<^item> \<open>Toggle i now\<close>: \<open>toggleComplete(i)\<close>;
  \<^item> \<open>Delete i confirm\<close>: \<open>deleteTask(i)\<close>.
\<close>

datatype event =
    SubmitAdd formData int int
  | SubmitEdit int formData
  | Toggle int int
  | Delete int bool

fun handler :: "event \<Rightarrow> task list \<Rightarrow> error + task list" where
  "handler (SubmitAdd fd now_id now_created) tasks =
     Inr (handleSubmit (addTask now_id now_created) fd tasks)"
| "handler (SubmitEdit i fd) tasks =
     Inr (handleSubmit (\<lambda>taskData. updateTask i (formUpdates taskData)) fd tasks)"
| "handler (Toggle i now) tasks = toggleComplete now i tasks"
| "handler (Delete i confirm) tasks = Inr (deleteTask confirm i tasks)"

text \<open>
  An exception thrown inside an event handler is raised before \<open>setTasks\<close> is called:
  the collection stays what it was.
\<close>

definition dispatch :: "event \<Rightarrow> task list \<Rightarrow> task list" where
  "dispatch e tasks = (case handler e tasks of Inl _ \<Rightarrow> tasks | Inr tasks' \<Rightarrow> tasks')"

fun run :: "event list \<Rightarrow> task list \<Rightarrow> task list" where
  "run [] tasks = tasks"
| "run (e # es) tasks = run es (dispatch e tasks)"

text \<open>The values of \<open>Date.now()\<close> that the accepted add submits of a run use as ids.\<close>

fun add_ids :: "event list \<Rightarrow> int list" where
  "add_ids [] = []"
| "add_ids (SubmitAdd fd now_id now_created # es) =
     (if trim (f_title fd) = [] then add_ids es else now_id # add_ids es)"
| "add_ids (e # es) = add_ids es"

section \<open>View model: search, filter, statistics, sort\<close>

text \<open>
  \<open>String.prototype.toLowerCase\<close>. On ASCII text (every code unit below 128) it maps the
  letters A to Z (65 to 90) to a to z and keeps every other code unit. On any other
  text it applies the Unicode case mappings, some of which change the length or depend
  on the context: that is the engine's \<open>unicode_lower\<close>.
\<close>

definition isAscii :: "jsstring \<Rightarrow> bool" where
  "isAscii s = list_all (\<lambda>u. u < 128) s"

definition lowerUnit :: "nat \<Rightarrow> nat" where
  "lowerUnit u = (if 65 \<le> u \<and> u \<le> 90 then u + 32 else u)"

definition toLowerCase :: "engine \<Rightarrow> jsstring \<Rightarrow> jsstring" where
  "toLowerCase eng s = (if isAscii s then map lowerUnit s else unicode_lower eng s)"

text \<open>\<open>s.includes(t)\<close>: \<open>t\<close> occurs in \<open>s\<close> as a contiguous run of code units.\<close>

fun startsWith :: "jsstring \<Rightarrow> jsstring \<Rightarrow> bool" where
  "startsWith s [] = True"
| "startsWith [] (c # t) = False"
| "startsWith (a # s) (c # t) = (a = c \<and> startsWith s t)"

fun includes_s :: "jsstring \<Rightarrow> jsstring \<Rightarrow> bool" where
  "includes_s [] t = (t = [])"
| "includes_s (a # s) t = (startsWith (a # s) t \<or> includes_s s t)"

text \<open>
  \<open>matchesSearch\<close>: \<open>task.description && ...\<close> is falsy for a missing description and for
  the empty string.
\<close>

definition matchesSearch :: "engine \<Rightarrow> jsstring \<Rightarrow> task \<Rightarrow> bool" where
  "matchesSearch eng searchTerm t =
     (includes_s (toLowerCase eng (title t)) (toLowerCase eng searchTerm) \<or>
      (case description t of
         None \<Rightarrow> False
       | Some d \<Rightarrow> d \<noteq> [] \<and> includes_s (toLowerCase eng d) (toLowerCase eng searchTerm)))"

text \<open>The callback of \<open>tasks.filter\<close>: the \<open>switch\<close> on the filter string, in its order.\<close>

definition passesFilter :: "engine \<Rightarrow> jsstring \<Rightarrow> string \<Rightarrow> task \<Rightarrow> bool" where
  "passesFilter eng searchTerm flt t =
     (if flt = ''completed'' then completed t \<and> matchesSearch eng searchTerm t
      else if flt = ''pending'' then \<not> completed t \<and> matchesSearch eng searchTerm t
      else if flt = ''high'' then priority t = ''high'' \<and> matchesSearch eng searchTerm t
      else if flt = ''medium'' then priority t = ''medium'' \<and> matchesSearch eng searchTerm t
      else if flt = ''low'' then priority t = ''low'' \<and> matchesSearch eng searchTerm t
      else matchesSearch eng searchTerm t)"

definition filteredTasks :: "engine \<Rightarrow> jsstring \<Rightarrow> string \<Rightarrow> task list \<Rightarrow> task list" where
  "filteredTasks eng searchTerm flt tasks = filter (passesFilter eng searchTerm flt) tasks"

text \<open>
  \<open>stats\<close>. The callback of the overdue filter is
  \<open>!task.completed && task.dueDate && new Date(task.dueDate) < new Date()\<close>: the clock is
  read inside the callback, once for every task that is not completed and has a due
  date, and not at all for the others. \<open>clock k\<close> is the reading of call number \<open>k\<close> of
  \<open>new Date()\<close> during the scan.
\<close>

record stats_rec =
  total :: nat
  completed_n :: nat
  pending :: nat
  overdue :: nat

fun overdueScan :: "(nat \<Rightarrow> int) \<Rightarrow> nat \<Rightarrow> task list \<Rightarrow> nat" where
  "overdueScan clock k [] = 0"
| "overdueScan clock k (t # ts) =
     (if completed t then overdueScan clock k ts
      else (case dueDate t of
              None \<Rightarrow> overdueScan clock k ts
            | Some d \<Rightarrow> (if d < clock k then 1 else 0) + overdueScan clock (Suc k) ts))"

definition stats :: "(nat \<Rightarrow> int) \<Rightarrow> task list \<Rightarrow> stats_rec" where
  "stats clock tasks =
     \<lparr>total = length tasks,
      completed_n = length (filter (\<lambda>t. completed t) tasks),
      pending = length (filter (\<lambda>t. \<not> completed t) tasks),
      overdue = overdueScan clock 0 tasks\<rparr>"

text \<open>
  The comparator of \<open>filteredTasks.sort\<close>. \<open>priorityOrder[p]\<close> is \<open>undefined\<close> for a
  string that is not one of the three keys, and a difference with \<open>undefined\<close> is \<open>NaN\<close>.
\<close>

definition priorityOrder :: "string \<Rightarrow> int option" where
  "priorityOrder p =
     (if p = ''high'' then Some 3 else if p = ''medium'' then Some 2
      else if p = ''low'' then Some 1 else None)"



section \<open>What the language standard says of Array.prototype.sort\<close>

text \<open>
  From the ECMAScript standard (\<open>Array.prototype.sort\<close>, \<open>SortCompare\<close>). The value a
  comparison counts for is \<open>sortCompare\<close>: a \<open>NaN\<close> result is taken as \<open>+0\<close>. A comparator
  is consistent for a set of values when it never returns \<open>NaN\<close> there and, writing
  \<open>a < b\<close>, \<open>a = b\<close>, \<open>a > b\<close> for a negative, zero, positive result: \<open>a = a\<close>; \<open>a = b\<close>
  implies \<open>b = a\<close>; and each of \<open>=\<close>, \<open><\<close>, \<open>>\<close> is transitive.

  The result of the sort is always a rearrangement of the elements. When the comparator
  is consistent for the elements, the result is in the comparator's order and the sort
  is stable: elements that compare equal stay in the order they had. Otherwise the
  order is left to the implementation.
\<close>

definition sortCompare :: "('a \<Rightarrow> 'a \<Rightarrow> number) \<Rightarrow> 'a \<Rightarrow> 'a \<Rightarrow> int" where
  "sortCompare comparefn x y = (case comparefn x y of NaN \<Rightarrow> 0 | Num v \<Rightarrow> v)"

definition consistent_comparator :: "('a \<Rightarrow> 'a \<Rightarrow> number) \<Rightarrow> 'a set \<Rightarrow> bool" where
  "consistent_comparator f S =
     (\<forall>a\<in>S. \<forall>b\<in>S. \<forall>c\<in>S.
        f a b \<noteq> NaN
      \<and> sortCompare f a a = 0
      \<and> (sortCompare f a b = 0 \<longrightarrow> sortCompare f b a = 0)
      \<and> (sortCompare f a b = 0 \<and> sortCompare f b c = 0 \<longrightarrow> sortCompare f a c = 0)
      \<and> (sortCompare f a b < 0 \<and> sortCompare f b c < 0 \<longrightarrow> sortCompare f a c < 0)
      \<and> (0 < sortCompare f a b \<and> 0 < sortCompare f b c \<longrightarrow> 0 < sortCompare f a c))"


text \<open>
  One sort that conforms (lemma \<open>conforming_insertion_sort\<close>): the insertion sort that
  puts each element in front of the first element of the sorted rest that it does not
  have to follow.
\<close>

fun insert_sorted :: "('a \<Rightarrow> 'a \<Rightarrow> number) \<Rightarrow> 'a \<Rightarrow> 'a list \<Rightarrow> 'a list" where
  "insert_sorted comparefn x [] = [x]"
| "insert_sorted comparefn x (y # ys) =
     (if sortCompare comparefn x y \<le> 0 then x # y # ys
      else y # insert_sorted comparefn x ys)"

fun insertion_sort :: "('a \<Rightarrow> 'a \<Rightarrow> number) \<Rightarrow> 'a list \<Rightarrow> 'a list" where
  "insertion_sort comparefn [] = []"
| "insertion_sort comparefn (x # xs) = insert_sorted comparefn x (insertion_sort comparefn xs)"

section \<open>The statements of the specification, as predicates\<close>

text \<open>
  \<open>completedAt\<close> against the \<open>completed\<close> flag: a time stamp exactly when the task is
  completed (\<open>completedAt_ok\<close>); and the reading of the specification, under which the
  key is missing, not \<open>null\<close>, whenever the task is not completed
  (\<open>completedAt_as_claimed\<close>).
\<close>

fun isStamp :: "completedAt_field \<Rightarrow> bool" where
  "isStamp (Stamp s) = True"
| "isStamp _ = False"

definition completedAt_ok :: "task \<Rightarrow> bool" where
  "completedAt_ok t = (completed t = isStamp (completedAt t))"

definition completedAt_as_claimed :: "task \<Rightarrow> bool" where
  "completedAt_as_claimed t = (completed t = (completedAt t \<noteq> Absent))"

text \<open>Two calls of \<open>toggleComplete\<close> on the same id, one after the other.\<close>

definition toggleTwice :: "int \<Rightarrow> int \<Rightarrow> int \<Rightarrow> task list \<Rightarrow> error + task list" where
  "toggleTwice now1 now2 i tasks =
     (case toggleComplete now1 i tasks of
        Inl e \<Rightarrow> Inl e
      | Inr tasks1 \<Rightarrow> toggleComplete now2 i tasks1)"






text \<open>
  The overdue count of the specification for one current time \<open>now\<close>, as the number of
  positions of such tasks. Against it, what the scan counts when each task has its own
  clock reading: the tasks that are not completed and have a due date, numbered in their
  order, each compared with the reading of its number.
\<close>

definition overdue_spec :: "int \<Rightarrow> task list \<Rightarrow> nat" where
  "overdue_spec now tasks =
     card {k. k < length tasks \<and> \<not> completed (tasks ! k) \<and>
              (\<exists>d. dueDate (tasks ! k) = Some d \<and> d < now)}"

definition dated_pending :: "task list \<Rightarrow> task list" where
  "dated_pending tasks = filter (\<lambda>t. \<not> completed t \<and> dueDate t \<noteq> None) tasks"

definition overdue_by_reading :: "(nat \<Rightarrow> int) \<Rightarrow> task list \<Rightarrow> nat" where
  "overdue_by_reading clock tasks =
     card {k. k < length (dated_pending tasks) \<and>
              (\<exists>d. dueDate (dated_pending tasks ! k) = Some d \<and> d < clock k)}"

text \<open>
  The display order of the specification, as relations between a task \<open>a\<close> and any task
  \<open>b\<close> shown after it. \<open>rank\<close> is the number \<open>priorityOrder\<close> gives a priority. Two
  tasks are in the same group when they agree on completion and priority.
\<close>

definition rank :: "task \<Rightarrow> int" where
  "rank t = (case priorityOrder (priority t) of None \<Rightarrow> 0 | Some n \<Rightarrow> n)"

definition same_group :: "task \<Rightarrow> task \<Rightarrow> bool" where
  "same_group a b = (completed a = completed b \<and> priority a = priority b)"









text \<open>
  Sample data: a form, three pending tasks of one group, a completed task, and an engine
  for them: the insertion sort, and no case mapping beyond ASCII (the samples are ASCII).
\<close>

definition milk :: formData where
  "milk = \<lparr>f_title = units ''Buy milk'', f_description = [], f_priority = ''high'',
     f_dueDate = None\<rparr>"

definition task_a :: task where
  "task_a = \<lparr>id_t = 1, title = units ''Pay rent'', description = Some [],
     priority = ''medium'', dueDate = Some 86400000, completed = False, createdAt = 1,
     completedAt = Absent\<rparr>"

definition task_b :: task where
  "task_b = \<lparr>id_t = 2, title = units ''Water plants'', description = Some [],
     priority = ''medium'', dueDate = None, completed = False, createdAt = 2,
     completedAt = Absent\<rparr>"


definition done_task :: task where
  "done_task = \<lparr>id_t = 4, title = units ''Call Bob'', description = None,
     priority = ''high'', dueDate = Some 86400000, completed = True, createdAt = 4,
     completedAt = Stamp 5\<rparr>"

definition sample_engine :: engine where
  "sample_engine = \<lparr>unicode_lower = (\<lambda>s. s), array_sort = insertion_sort\<rparr>"

section \<open>The store: fields, ids, the state of completedAt\<close>

lemma spread_simps:
  "id_t (spread t u) = (case u_id u of None \<Rightarrow> id_t t | Some v \<Rightarrow> v)"
  "title (spread t u) = (case u_title u of None \<Rightarrow> title t | Some v \<Rightarrow> v)"
  "description (spread t u) = (case u_description u of None \<Rightarrow> description t | Some v \<Rightarrow> v)"
  "priority (spread t u) = (case u_priority u of None \<Rightarrow> priority t | Some v \<Rightarrow> v)"
  "dueDate (spread t u) = (case u_dueDate u of None \<Rightarrow> dueDate t | Some v \<Rightarrow> v)"
  "completed (spread t u) = (case u_completed u of None \<Rightarrow> completed t | Some v \<Rightarrow> v)"
  "createdAt (spread t u) = (case u_createdAt u of None \<Rightarrow> createdAt t | Some v \<Rightarrow> v)"
  "completedAt (spread t u) = (case u_completedAt u of None \<Rightarrow> completedAt t | Some v \<Rightarrow> v)"
  by (simp_all add: spread_def)

lemma formUpdates_simps:
  "u_id (formUpdates fd) = None"
  "u_completed (formUpdates fd) = None"
  "u_createdAt (formUpdates fd) = None"
  "u_completedAt (formUpdates fd) = None"
  "u_title (formUpdates fd) = Some (f_title fd)"
  "u_description (formUpdates fd) = Some (Some (f_description fd))"
  "u_priority (formUpdates fd) = Some (f_priority fd)"
  "u_dueDate (formUpdates fd) = Some (f_dueDate fd)"
  by (simp_all add: formUpdates_def no_updates_def)

lemma length_updateTask: "length (updateTask i u tasks) = length tasks"
  by (simp add: updateTask_def)

lemma nth_updateTask:
  "j < length tasks \<Longrightarrow>
   updateTask i u tasks ! j = (if id_t (tasks ! j) = i then spread (tasks ! j) u else tasks ! j)"
  by (simp add: updateTask_def)

lemma ids_updateTask:
  "u_id u = None \<Longrightarrow> map id_t (updateTask i u tasks) = map id_t tasks"
  by (induction tasks) (simp_all add: updateTask_def spread_simps)

lemma find_updateTask:
  "u_id u = None \<Longrightarrow>
   find (\<lambda>t. id_t t = i) (updateTask i u tasks) =
     map_option (\<lambda>t. spread t u) (find (\<lambda>t. id_t t = i) tasks)"
  by (induction tasks) (simp_all add: updateTask_def spread_simps)

lemma handler_toggle_cases:
  "toggleComplete now i tasks = Inl TypeError \<or>
   (\<exists>c. toggleComplete now i tasks =
      Inr (updateTask i (no_updates\<lparr>u_completed := Some c,
             u_completedAt := Some (if c then Stamp now else Null)\<rparr>) tasks))"
  by (auto simp: toggleComplete_def split: option.splits)

lemma toggleComplete_found:
  fixes now :: int
  assumes "find (\<lambda>t. id_t t = i) tasks = Some t"
  defines "u \<equiv> no_updates\<lparr>u_completed := Some (\<not> completed t),
                 u_completedAt := Some (if \<not> completed t then Stamp now else Null)\<rparr>"
  shows "toggleComplete now i tasks = Inr (updateTask i u tasks)"
    and "find (\<lambda>t. id_t t = i) (updateTask i u tasks) = Some (spread t u)"
proof -
  show "toggleComplete now i tasks = Inr (updateTask i u tasks)"
    using assms(1) by (simp add: toggleComplete_def u_def)
  have "u_id u = None" by (simp add: u_def no_updates_def)
  then show "find (\<lambda>t. id_t t = i) (updateTask i u tasks) = Some (spread t u)"
    using assms(1) by (simp add: find_updateTask)
qed

lemma trim_milk: "trim (f_title milk) \<noteq> []"
  by (simp add: milk_def trim_def isWhiteSpace_def units_def)

subsection \<open>An id that is not in the collection\<close>

lemma updateTask_unknown_id:
  "i \<notin> id_t ` set tasks \<Longrightarrow> updateTask i u tasks = tasks"
  by (induction tasks) (auto simp: updateTask_def)

lemma deleteTask_unknown_id:
  "i \<notin> id_t ` set tasks \<Longrightarrow> deleteTask confirm i tasks = tasks"
  by (induction tasks) (auto simp: deleteTask_def)

lemma find_unknown_id:
  "i \<notin> id_t ` set tasks \<Longrightarrow> find (\<lambda>t. id_t t = i) tasks = None"
  by (induction tasks) auto

lemma toggleComplete_unknown_id:
  "i \<notin> id_t ` set tasks \<Longrightarrow> toggleComplete now i tasks = Inl TypeError"
  by (simp add: toggleComplete_def find_unknown_id)

lemma toggleComplete_known_id:
  "i \<in> id_t ` set tasks \<Longrightarrow> \<exists>tasks'. toggleComplete now i tasks = Inr tasks'"
proof -
  assume "i \<in> id_t ` set tasks"
  then have "find (\<lambda>t. id_t t = i) tasks \<noteq> None"
    by (induction tasks) auto
  then show ?thesis by (auto simp: toggleComplete_def)
qed

text \<open>
  C1 (as amended). For an id that no task of the collection carries, \<open>updateTask\<close> and
  \<open>deleteTask\<close> leave the collection as it is and signal no error. \<open>toggleComplete\<close>,
  which the interface calls only with the id of a task of the collection, succeeds for
  such an id; for an id that no task carries it throws a TypeError, and the collection
  stays as it is.
\<close>

theorem C1_unknown_id:
  "i \<notin> id_t ` set tasks \<Longrightarrow>
     updateTask i u tasks = tasks
   \<and> deleteTask confirm i tasks = tasks
   \<and> dispatch (SubmitEdit i fd) tasks = tasks
   \<and> dispatch (Delete i confirm) tasks = tasks
   \<and> toggleComplete now i tasks = Inl TypeError
   \<and> dispatch (Toggle i now) tasks = tasks
   \<and> (\<forall>j\<in>id_t ` set tasks. \<exists>tasks'. toggleComplete now j tasks = Inr tasks')"
  by (auto simp: updateTask_unknown_id deleteTask_unknown_id toggleComplete_unknown_id
      dispatch_def handleSubmit_def toggleComplete_known_id)

text \<open>
  C1, at the collection holding the single task with id 1 and the unknown id 2;
  toggling the known id 1 succeeds.
\<close>

theorem C1_unknown_id_witness:
  "2 \<notin> id_t ` set [task_a]
   \<and> updateTask 2 (no_updates\<lparr>u_completed := Some True\<rparr>) [task_a] = [task_a]
   \<and> deleteTask True 2 [task_a] = [task_a]
   \<and> toggleComplete 50 2 [task_a] = Inl TypeError
   \<and> dispatch (Toggle 2 50) [task_a] = [task_a]
   \<and> toggleComplete 50 1 [task_a] =
       Inr [task_a\<lparr>completed := True, completedAt := Stamp 50\<rparr>]"
proof -
  have n: "2 \<notin> id_t ` set [task_a]" by (simp add: task_a_def)
  have "toggleComplete 50 1 [task_a] = Inr [task_a\<lparr>completed := True, completedAt := Stamp 50\<rparr>]"
    by (simp add: toggleComplete_def updateTask_def spread_def no_updates_def task_a_def)
  with n C1_unknown_id [OF n, of "no_updates\<lparr>u_completed := Some True\<rparr>" True milk 50]
  show ?thesis by simp
qed

text \<open>
  C1 as stated fails for \<open>toggleComplete\<close>: on the collection holding the single task
  with id 1, toggling id 2 ends in a TypeError.
\<close>

theorem C1_toggleComplete_unknown_id_counterexample:
  "toggleComplete 50 2 [task_a] = Inl TypeError"
  by (simp add: toggleComplete_def task_a_def)

subsection \<open>Adding and editing\<close>

lemma handleSubmit_blank_title:
  "trim (f_title fd) = [] \<Longrightarrow> handleSubmit onSubmit fd tasks = tasks"
  by (simp add: handleSubmit_def)

text \<open>
  C9. \<open>addTask\<close> appends exactly one task and leaves the tasks before it as they were; the
  new task has \<open>completed = false\<close>, the clock reading as \<open>createdAt\<close>, no
  \<open>completedAt\<close> and the four fields of the draft; the length grows by one. A draft whose
  title is not blank passes the guard of the form, so that the submit is this \<open>addTask\<close>.
\<close>

theorem C9_addTask_appends:
  "\<exists>new. addTask now_id now_created fd tasks = tasks @ [new]
     \<and> id_t new = now_id \<and> completed new = False \<and> createdAt new = now_created
     \<and> completedAt new = Absent
     \<and> title new = f_title fd \<and> description new = Some (f_description fd)
     \<and> priority new = f_priority fd \<and> dueDate new = f_dueDate fd
     \<and> length (addTask now_id now_created fd tasks) = length tasks + 1
     \<and> take (length tasks) (addTask now_id now_created fd tasks) = tasks
     \<and> (trim (f_title fd) \<noteq> [] \<longrightarrow>
          handleSubmit (addTask now_id now_created) fd tasks = tasks @ [new])"
  by (simp add: addTask_def handleSubmit_def)

text \<open>C9, at the draft "Buy milk" submitted to a collection of one task.\<close>

theorem C9_addTask_appends_witness:
  "trim (f_title milk) \<noteq> [] \<and>
   handleSubmit (addTask 1000 1001) milk [done_task] =
     [done_task, \<lparr>id_t = 1000, title = units ''Buy milk'', description = Some [], priority = ''high'',
       dueDate = None, completed = False, createdAt = 1001, completedAt = Absent\<rparr>]"
proof -
  from C9_addTask_appends [of 1000 1001 milk "[done_task]"]
  obtain new where n: "addTask 1000 1001 milk [done_task] = [done_task] @ [new]"
    and h: "trim (f_title milk) \<noteq> [] \<longrightarrow>
          handleSubmit (addTask 1000 1001) milk [done_task] = [done_task] @ [new]"
    by blast
  from n have "new = \<lparr>id_t = 1000, title = units ''Buy milk'', description = Some [], priority = ''high'',
       dueDate = None, completed = False, createdAt = 1001, completedAt = Absent\<rparr>"
    by (simp add: addTask_def milk_def)
  with h trim_milk show ?thesis by simp
qed

text \<open>
  C10 (as amended). Let \<open>t\<close> be the task at position \<open>k\<close> and \<open>fd\<close> the form data of an edit.
  \<open>updateTask(t.id, fd)\<close> keeps the length and the order of the ids, keeps \<open>id\<close>,
  \<open>completed\<close>, \<open>completedAt\<close> and \<open>createdAt\<close> of \<open>t\<close>, gives \<open>t\<close> the four fields of the
  form, and leaves every task with another id unchanged; when the ids of the collection
  are pairwise distinct, that is every other task. A task that shares the id of \<open>t\<close>
  receives the four fields as well.
\<close>

theorem C10_updateTask_frame:
  fixes fd :: formData
  assumes "k < length tasks"
  defines "tasks' \<equiv> updateTask (id_t (tasks ! k)) (formUpdates fd) tasks"
  shows "length tasks' = length tasks
     \<and> map id_t tasks' = map id_t tasks
     \<and> id_t (tasks' ! k) = id_t (tasks ! k)
     \<and> completed (tasks' ! k) = completed (tasks ! k)
     \<and> completedAt (tasks' ! k) = completedAt (tasks ! k)
     \<and> createdAt (tasks' ! k) = createdAt (tasks ! k)
     \<and> title (tasks' ! k) = f_title fd
     \<and> description (tasks' ! k) = Some (f_description fd)
     \<and> priority (tasks' ! k) = f_priority fd
     \<and> dueDate (tasks' ! k) = f_dueDate fd
     \<and> (\<forall>j<length tasks. id_t (tasks ! j) \<noteq> id_t (tasks ! k) \<longrightarrow> tasks' ! j = tasks ! j)
     \<and> (\<forall>j<length tasks. id_t (tasks ! j) = id_t (tasks ! k) \<longrightarrow>
            tasks' ! j = spread (tasks ! j) (formUpdates fd))
     \<and> (distinct (map id_t tasks) \<longrightarrow> (\<forall>j<length tasks. j \<noteq> k \<longrightarrow> tasks' ! j = tasks ! j))"
proof -
  have other: "\<forall>j<length tasks. id_t (tasks ! j) \<noteq> id_t (tasks ! k) \<longrightarrow> tasks' ! j = tasks ! j"
    by (simp add: tasks'_def nth_updateTask)
  have "\<forall>j<length tasks. j \<noteq> k \<longrightarrow> tasks' ! j = tasks ! j" if d: "distinct (map id_t tasks)"
  proof (intro allI impI)
    fix j assume j: "j < length tasks" "j \<noteq> k"
    have "map id_t tasks ! j \<noteq> map id_t tasks ! k"
      using d j assms(1) nth_eq_iff_index_eq [of "map id_t tasks" j k] by simp
    with j assms(1) have "id_t (tasks ! j) \<noteq> id_t (tasks ! k)" by simp
    with other j show "tasks' ! j = tasks ! j" by simp
  qed
  then show ?thesis
    using assms(1) other
    by (simp add: tasks'_def length_updateTask ids_updateTask nth_updateTask spread_simps
        formUpdates_simps)
qed

text \<open>C10, at a collection of two tasks with the ids 4 and 2, editing the first.\<close>

theorem C10_updateTask_frame_witness:
  "(0::nat) < length [done_task, task_b] \<and> distinct (map id_t [done_task, task_b]) \<and>
   updateTask (id_t ([done_task, task_b] ! 0)) (formUpdates milk) [done_task, task_b] =
     [\<lparr>id_t = 4, title = units ''Buy milk'', description = Some [], priority = ''high'',
       dueDate = None, completed = True, createdAt = 4, completedAt = Stamp 5\<rparr>, task_b]"
proof -
  have k: "(0::nat) < length [done_task, task_b]" by simp
  have d: "distinct (map id_t [done_task, task_b])"
    by (simp add: done_task_def task_b_def)
  have "updateTask (id_t ([done_task, task_b] ! 0)) (formUpdates milk) [done_task, task_b] ! 1
          = [done_task, task_b] ! 1"
    using C10_updateTask_frame [OF k, of milk] d by simp
  then show ?thesis using k d
    by (simp add: updateTask_def spread_def formUpdates_def no_updates_def milk_def done_task_def)
qed

text \<open>
  C10 as stated fails on a collection with a repeated id: after two add submits that
  read the same clock value 1000, editing the first task rewrites the second as well.
\<close>

theorem C10_repeated_id_counterexample:
  "run [SubmitAdd milk 1000 1000, SubmitAdd (milk\<lparr>f_title := units ''Buy bread''\<rparr>) 1000 1001] []
     = [\<lparr>id_t = 1000, title = units ''Buy milk'', description = Some [], priority = ''high'',
          dueDate = None, completed = False, createdAt = 1000, completedAt = Absent\<rparr>,
        \<lparr>id_t = 1000, title = units ''Buy bread'', description = Some [], priority = ''high'',
          dueDate = None, completed = False, createdAt = 1001, completedAt = Absent\<rparr>]
   \<and> updateTask 1000 (formUpdates (milk\<lparr>f_title := units ''Buy oat milk''\<rparr>))
       (run [SubmitAdd milk 1000 1000,
             SubmitAdd (milk\<lparr>f_title := units ''Buy bread''\<rparr>) 1000 1001] [])
     = [\<lparr>id_t = 1000, title = units ''Buy oat milk'', description = Some [], priority = ''high'',
          dueDate = None, completed = False, createdAt = 1000, completedAt = Absent\<rparr>,
        \<lparr>id_t = 1000, title = units ''Buy oat milk'', description = Some [], priority = ''high'',
          dueDate = None, completed = False, createdAt = 1001, completedAt = Absent\<rparr>]"
proof -
  have t: "trim (units ''Buy bread'') \<noteq> []"
    by (simp add: trim_def isWhiteSpace_def units_def)
  have r: "run [SubmitAdd milk 1000 1000, SubmitAdd (milk\<lparr>f_title := units ''Buy bread''\<rparr>) 1000 1001] []
     = [\<lparr>id_t = 1000, title = units ''Buy milk'', description = Some [], priority = ''high'',
          dueDate = None, completed = False, createdAt = 1000, completedAt = Absent\<rparr>,
        \<lparr>id_t = 1000, title = units ''Buy bread'', description = Some [], priority = ''high'',
          dueDate = None, completed = False, createdAt = 1001, completedAt = Absent\<rparr>]"
    by (simp add: dispatch_def handleSubmit_def addTask_def trim_milk t) (simp add: milk_def)
  show ?thesis unfolding r
    by (simp add: updateTask_def spread_def formUpdates_def no_updates_def milk_def)
qed

subsection \<open>completedAt and completed\<close>

lemma completedAt_ok_updateTask:
  assumes "\<forall>t\<in>set tasks. completedAt_ok t" "\<And>t. completedAt_ok t \<Longrightarrow> completedAt_ok (spread t u)"
  shows "\<forall>t\<in>set (updateTask i u tasks). completedAt_ok t"
  using assms by (auto simp: updateTask_def)

lemma completedAt_ok_spread_toggle:
  "completedAt_ok (spread t (no_updates\<lparr>u_completed := Some c,
      u_completedAt := Some (if c then Stamp now else Null)\<rparr>))"
  by (cases c) (simp_all add: completedAt_ok_def spread_simps)

lemma completedAt_ok_spread_form:
  "completedAt_ok t \<Longrightarrow> completedAt_ok (spread t (formUpdates fd))"
  by (simp add: completedAt_ok_def spread_simps formUpdates_simps)

lemma completedAt_ok_dispatch:
  assumes "\<forall>t\<in>set tasks. completedAt_ok t"
  shows "\<forall>t\<in>set (dispatch e tasks). completedAt_ok t"
proof (cases e)
  case (SubmitAdd fd n1 n2)
  then show ?thesis using assms
    by (auto simp: dispatch_def handleSubmit_def addTask_def completedAt_ok_def)
next
  case (SubmitEdit i fd)
  then show ?thesis
    using assms completedAt_ok_updateTask [OF assms completedAt_ok_spread_form]
    by (simp add: dispatch_def handleSubmit_def)
next
  case (Toggle i now)
  then show ?thesis
    using assms handler_toggle_cases [of now i tasks]
      completedAt_ok_updateTask [OF assms completedAt_ok_spread_toggle]
    by (auto simp: dispatch_def)
next
  case (Delete i c)
  then show ?thesis using assms by (auto simp: dispatch_def deleteTask_def)
qed

lemma completedAt_ok_not_completed:
  "completedAt_ok t \<Longrightarrow> \<not> completed t \<Longrightarrow> completedAt t = Absent \<or> completedAt t = Null"
  by (cases "completedAt t") (simp_all add: completedAt_ok_def)

text \<open>
  C2 (as amended). In every state reached from a collection in which each task carries a
  time stamp in \<open>completedAt\<close> exactly when it is completed (the empty collection is
  one), each task still does, whatever add submits, edit submits, toggles and deletes are
  run. A task that is not completed has no \<open>completedAt\<close> key or the value \<open>null\<close>.
\<close>

theorem C2_completedAt_invariant:
  "(\<forall>t\<in>set tasks. completedAt_ok t) \<Longrightarrow> (\<forall>t\<in>set (run es tasks). completedAt_ok t)"
proof (induction es arbitrary: tasks)
  case Nil
  then show ?case by simp
next
  case (Cons e es)
  from Cons.prems have "\<forall>t\<in>set (dispatch e tasks). completedAt_ok t"
    by (rule completedAt_ok_dispatch)
  then show ?case using Cons.IH by simp
qed

text \<open>C2, at a run from the empty collection: a task is added and completed.\<close>

theorem C2_completedAt_invariant_witness:
  "list_all completedAt_ok []
   \<and> list_all completedAt_ok (run [SubmitAdd milk 1000 1000, Toggle 1000 2000] [])
   \<and> run [SubmitAdd milk 1000 1000, Toggle 1000 2000] [] =
     [\<lparr>id_t = 1000, title = units ''Buy milk'', description = Some [], priority = ''high'',
       dueDate = None, completed = True, createdAt = 1000, completedAt = Stamp 2000\<rparr>]"
proof -
  have "\<forall>t\<in>set []. completedAt_ok t" by simp
  then have "\<forall>t\<in>set (run [SubmitAdd milk 1000 1000, Toggle 1000 2000] []). completedAt_ok t"
    by (rule C2_completedAt_invariant)
  then have "list_all completedAt_ok (run [SubmitAdd milk 1000 1000, Toggle 1000 2000] [])"
    by (simp only: list_all_iff)
  moreover have "run [SubmitAdd milk 1000 1000, Toggle 1000 2000] [] =
     [\<lparr>id_t = 1000, title = units ''Buy milk'', description = Some [], priority = ''high'',
       dueDate = None, completed = True, createdAt = 1000, completedAt = Stamp 2000\<rparr>]"
    by (simp add: dispatch_def handleSubmit_def addTask_def toggleComplete_def updateTask_def
        spread_def no_updates_def trim_milk) (simp add: milk_def)
  ultimately show ?thesis by simp
qed

text \<open>
  C2 as stated fails: after adding a task and toggling it twice the task is not completed
  and its \<open>completedAt\<close> is \<open>null\<close>, a present key, not a missing one.
\<close>

theorem C2_completedAt_null_counterexample:
  "map (\<lambda>t. (completed t, completedAt t))
     (run [SubmitAdd milk 1000 1000, Toggle 1000 2000, Toggle 1000 3000] []) = [(False, Null)]
   \<and> \<not> (\<forall>t\<in>set (run [SubmitAdd milk 1000 1000, Toggle 1000 2000, Toggle 1000 3000] []).
           completedAt_as_claimed t)"
  by (simp add: dispatch_def handleSubmit_def addTask_def toggleComplete_def updateTask_def
      spread_def no_updates_def trim_milk completedAt_as_claimed_def)

text \<open>
  C3 (as amended). Toggling the id of a task of the collection twice succeeds both times and
  gives the task (the first one with that id) its \<open>completed\<close> flag back; every other
  field but \<open>completedAt\<close> is as before, and \<open>completedAt\<close> is \<open>null\<close> if the task was
  not completed and the time of the second toggle if it was.
\<close>

theorem C3_toggle_twice:
  assumes "find (\<lambda>t. id_t t = i) tasks = Some t"
  shows "\<exists>tasks2 t2. toggleTwice now1 now2 i tasks = Inr tasks2
           \<and> find (\<lambda>t. id_t t = i) tasks2 = Some t2
           \<and> completed t2 = completed t
           \<and> completedAt t2 = (if completed t then Stamp now2 else Null)
           \<and> t2 = t\<lparr>completedAt := (if completed t then Stamp now2 else Null)\<rparr>"
proof -
  define u1 where "u1 = no_updates\<lparr>u_completed := Some (\<not> completed t),
                 u_completedAt := Some (if \<not> completed t then Stamp now1 else Null)\<rparr>"
  define t1 where "t1 = spread t u1"
  define tasks1 where "tasks1 = updateTask i u1 tasks"
  define u2 where "u2 = no_updates\<lparr>u_completed := Some (\<not> completed t1),
                 u_completedAt := Some (if \<not> completed t1 then Stamp now2 else Null)\<rparr>"
  have s1: "toggleComplete now1 i tasks = Inr tasks1"
    and f1: "find (\<lambda>t. id_t t = i) tasks1 = Some t1"
    using toggleComplete_found [OF assms, of now1] by (simp_all add: u1_def t1_def tasks1_def)
  have s2: "toggleComplete now2 i tasks1 = Inr (updateTask i u2 tasks1)"
    and f2: "find (\<lambda>t. id_t t = i) (updateTask i u2 tasks1) = Some (spread t1 u2)"
    using toggleComplete_found [OF f1, of now2] by (simp_all add: u2_def)
  have c1: "completed t1 = (\<not> completed t)"
    by (simp add: t1_def u1_def spread_simps)
  have t2: "spread t1 u2 = t\<lparr>completedAt := (if completed t then Stamp now2 else Null)\<rparr>"
    by (simp add: u2_def c1) (simp add: t1_def u1_def spread_def no_updates_def)
  have "toggleTwice now1 now2 i tasks = Inr (updateTask i u2 tasks1)"
    by (simp add: toggleTwice_def s1 s2)
  moreover have "completed (spread t1 u2) = completed t"
    and "completedAt (spread t1 u2) = (if completed t then Stamp now2 else Null)"
    by (simp_all add: t2)
  ultimately show ?thesis using f2 t2 by blast
qed

text \<open>C3, at a completed task with id 4, toggled at the times 10 and 20.\<close>

theorem C3_toggle_twice_witness:
  "find (\<lambda>t. id_t t = 4) [done_task] = Some done_task \<and>
   (\<exists>tasks2 t2. toggleTwice 10 20 4 [done_task] = Inr tasks2
           \<and> find (\<lambda>t. id_t t = 4) tasks2 = Some t2
           \<and> completed t2 = completed done_task
           \<and> completedAt t2 = (if completed done_task then Stamp 20 else Null)
           \<and> t2 = done_task\<lparr>completedAt := (if completed done_task then Stamp 20 else Null)\<rparr>)"
proof -
  have f: "find (\<lambda>t. id_t t = 4) [done_task] = Some done_task"
    by (simp add: done_task_def)
  show ?thesis using f C3_toggle_twice [OF f, of 10 20] by simp
qed

text \<open>
  C3 as stated fails: a task completed at time 5 and toggled at the times 10 and 20 ends
  with \<open>completedAt\<close> 20, and a task that never had a \<open>completedAt\<close> key ends with
  \<open>null\<close>.
\<close>

theorem C3_completedAt_not_restored_counterexample:
  "toggleTwice 10 20 4 [done_task] = Inr [done_task\<lparr>completedAt := Stamp 20\<rparr>]
   \<and> completedAt (done_task\<lparr>completedAt := Stamp 20\<rparr>) \<noteq> completedAt done_task
   \<and> toggleTwice 10 20 1 [task_a] = Inr [task_a\<lparr>completedAt := Null\<rparr>]
   \<and> completedAt (task_a\<lparr>completedAt := Null\<rparr>) \<noteq> completedAt task_a"
  by (simp add: toggleTwice_def toggleComplete_def updateTask_def spread_def no_updates_def
      done_task_def task_a_def)

subsection \<open>Ids\<close>

lemma ids_dispatch:
  "map id_t (dispatch e tasks) =
     (case e of
        SubmitAdd fd n1 n2 \<Rightarrow> map id_t tasks @ add_ids [e]
      | Delete i c \<Rightarrow> (if c then filter (\<lambda>x. x \<noteq> i) (map id_t tasks) else map id_t tasks)
      | _ \<Rightarrow> map id_t tasks)"
proof (cases e)
  case (SubmitAdd fd n1 n2)
  then show ?thesis by (simp add: dispatch_def handleSubmit_def addTask_def)
next
  case (SubmitEdit i fd)
  then show ?thesis
    by (simp add: dispatch_def handleSubmit_def ids_updateTask formUpdates_simps)
next
  case (Toggle i now)
  then show ?thesis
    using handler_toggle_cases [of now i tasks]
    by (auto simp: dispatch_def ids_updateTask no_updates_def)
next
  case (Delete i c)
  then show ?thesis by (simp add: dispatch_def deleteTask_def filter_map comp_def)
qed

lemma distinct_dispatch:
  assumes "distinct (map id_t tasks)" "set (add_ids [e]) \<inter> id_t ` set tasks = {}"
  shows "distinct (map id_t (dispatch e tasks))"
  using assms by (cases e) (auto simp: ids_dispatch split: if_splits)

lemma ids_subset_dispatch:
  "id_t ` set (dispatch e tasks) \<subseteq> id_t ` set tasks \<union> set (add_ids [e])"
proof -
  have "set (map id_t (dispatch e tasks)) \<subseteq> set (map id_t tasks) \<union> set (add_ids [e])"
    unfolding ids_dispatch by (cases e) (auto split: if_splits)
  then show ?thesis by simp
qed

lemma add_ids_Cons: "add_ids (e # es) = add_ids [e] @ add_ids es"
  by (cases e) auto

lemma distinct_run:
  "distinct (map id_t tasks) \<Longrightarrow> distinct (add_ids es) \<Longrightarrow>
   set (add_ids es) \<inter> id_t ` set tasks = {} \<Longrightarrow> distinct (map id_t (run es tasks))"
proof (induction es arbitrary: tasks)
  case Nil
  then show ?case by simp
next
  case (Cons e es)
  have split: "add_ids (e # es) = add_ids [e] @ add_ids es" by (rule add_ids_Cons)
  from Cons.prems split have d1: "distinct (add_ids es)"
    and d2: "set (add_ids [e]) \<inter> set (add_ids es) = {}"
    and d3: "set (add_ids [e]) \<inter> id_t ` set tasks = {}"
    and d4: "set (add_ids es) \<inter> id_t ` set tasks = {}"
    by auto
  have "distinct (map id_t (dispatch e tasks))"
    using Cons.prems(1) d3 by (rule distinct_dispatch)
  moreover have "set (add_ids es) \<inter> id_t ` set (dispatch e tasks) = {}"
    using ids_subset_dispatch [of e tasks] d2 d4 by blast
  ultimately show ?case using Cons.IH d1 by simp
qed

text \<open>
  C4 (as amended). Starting from the empty collection, after any sequence of add submits,
  edit submits, toggles and deletes in which no two accepted add submits read the same
  value of \<open>Date.now()\<close>, all ids of the collection are pairwise distinct.
\<close>

theorem C4_ids_distinct:
  "distinct (add_ids es) \<Longrightarrow> distinct (map id_t (run es []))"
  by (rule distinct_run) simp_all

text \<open>C4, at two adds with the clock readings 1000 and 1001 followed by a delete.\<close>

theorem C4_ids_distinct_witness:
  "distinct (add_ids [SubmitAdd milk 1000 1000, SubmitAdd milk 1001 1002, Delete 1000 True]) \<and>
   distinct (map id_t (run [SubmitAdd milk 1000 1000, SubmitAdd milk 1001 1002, Delete 1000 True] []))
   \<and> map id_t (run [SubmitAdd milk 1000 1000, SubmitAdd milk 1001 1002, Delete 1000 True] [])
       = [1001]"
proof -
  have d: "distinct (add_ids [SubmitAdd milk 1000 1000, SubmitAdd milk 1001 1002, Delete 1000 True])"
    by (simp add: trim_milk)
  show ?thesis using d C4_ids_distinct [OF d]
    by (simp add: dispatch_def handleSubmit_def addTask_def deleteTask_def trim_milk)
qed

text \<open>
  C4 as stated fails: two add submits that read the same clock value 1000 leave two tasks
  with the id 1000.
\<close>

theorem C4_same_clock_reading_counterexample:
  "map id_t (run [SubmitAdd milk 1000 1000, SubmitAdd milk 1000 1000] []) = [1000, 1000]
   \<and> \<not> distinct (map id_t (run [SubmitAdd milk 1000 1000, SubmitAdd milk 1000 1000] []))"
  by (simp add: dispatch_def handleSubmit_def addTask_def trim_milk)


section \<open>Search, filter and statistics\<close>



lemma includes_s_empty: "includes_s s []"
  by (cases s) simp_all


lemma toLowerCase_Nil: "toLowerCase eng [] = []"
  by (simp add: toLowerCase_def isAscii_def)









lemma overdueScan_enumerate:
  "overdueScan clock k ts =
     length (filter (\<lambda>(j, t). case dueDate t of Some d \<Rightarrow> d < clock j | None \<Rightarrow> False)
               (enumerate k (dated_pending ts)))"
  by (induction ts arbitrary: k) (auto simp: dated_pending_def split: option.splits)

lemma overdueScan_by_reading: "overdueScan clock 0 tasks = overdue_by_reading clock tasks"
proof -
  let ?dp = "dated_pending tasks"
  let ?P = "\<lambda>(j, t). case dueDate t of Some d \<Rightarrow> d < clock j | None \<Rightarrow> False"
  have "length (filter ?P (enumerate 0 ?dp))
          = card {k. k < length (enumerate 0 ?dp) \<and> ?P (enumerate 0 ?dp ! k)}"
    by (rule length_filter_conv_card)
  also have "{k. k < length (enumerate 0 ?dp) \<and> ?P (enumerate 0 ?dp ! k)}
          = {k. k < length ?dp \<and> (\<exists>d. dueDate (?dp ! k) = Some d \<and> d < clock k)}"
    by (auto simp: nth_enumerate_eq split: option.splits)
  finally show ?thesis
    by (simp add: overdueScan_enumerate overdue_by_reading_def)
qed

lemma overdue_spec_filter:
  "overdue_spec now tasks =
     length (filter (\<lambda>t. \<not> completed t \<and> (\<exists>d. dueDate t = Some d \<and> d < now)) tasks)"
  by (simp add: overdue_spec_def length_filter_conv_card)

lemma overdue_by_reading_one_instant:
  assumes "\<forall>k<length (dated_pending tasks). clock k = now"
  shows "overdue_by_reading clock tasks = overdue_spec now tasks"
proof -
  let ?dp = "dated_pending tasks"
  have "{k. k < length ?dp \<and> (\<exists>d. dueDate (?dp ! k) = Some d \<and> d < clock k)}
          = {k. k < length ?dp \<and> (\<exists>d. dueDate (?dp ! k) = Some d \<and> d < now)}"
    using assms by auto
  then have "overdue_by_reading clock tasks
          = length (filter (\<lambda>t. \<exists>d. dueDate t = Some d \<and> d < now) ?dp)"
    by (simp add: overdue_by_reading_def length_filter_conv_card)
  also have "filter (\<lambda>t. \<exists>d. dueDate t = Some d \<and> d < now) ?dp
          = filter (\<lambda>t. \<not> completed t \<and> (\<exists>d. dueDate t = Some d \<and> d < now)) tasks"
    by (induction tasks) (auto simp: dated_pending_def)
  finally show ?thesis by (simp add: overdue_spec_filter)
qed

lemma dated_pending_not_completed:
  "dated_pending (filter (\<lambda>t. \<not> completed t) tasks) = dated_pending tasks"
  by (induction tasks) (auto simp: dated_pending_def)

lemma dated_pending_all_completed:
  "list_all completed tasks \<Longrightarrow> dated_pending tasks = []"
  by (induction tasks) (auto simp: dated_pending_def)

text \<open>
  C7 (as amended). The overdue statistic is the number of tasks that are not completed,
  have a due date and have it before the clock reading taken for that task; the clock is
  read once for each task that is not completed and has a due date. When all these
  readings are one instant \<open>now\<close>, the statistic is the number of tasks that are not
  completed, have a due date and have it before \<open>now\<close>. Completed tasks never count:
  dropping them leaves the statistic unchanged, and it is 0 when every task is completed.
\<close>

theorem C7_overdue_count:
  "overdue (stats clock tasks) = overdue_by_reading clock tasks
   \<and> ((\<forall>k<length (dated_pending tasks). clock k = now) \<longrightarrow>
         overdue (stats clock tasks) = overdue_spec now tasks)
   \<and> overdue (stats clock tasks) = overdue (stats clock (filter (\<lambda>t. \<not> completed t) tasks))
   \<and> (list_all completed tasks \<longrightarrow> overdue (stats clock tasks) = 0)"
proof -
  have a: "overdue (stats clock tasks) = overdue_by_reading clock tasks"
    by (simp add: stats_def overdueScan_by_reading)
  have b: "(\<forall>k<length (dated_pending tasks). clock k = now) \<longrightarrow>
         overdue (stats clock tasks) = overdue_spec now tasks"
    using a overdue_by_reading_one_instant [of tasks clock now] by simp
  have c: "overdue (stats clock tasks)
             = overdue (stats clock (filter (\<lambda>t. \<not> completed t) tasks))"
    by (simp add: stats_def overdueScan_by_reading overdue_by_reading_def
        dated_pending_not_completed)
  have d: "list_all completed tasks \<longrightarrow> overdue (stats clock tasks) = 0"
    by (simp add: stats_def overdueScan_by_reading overdue_by_reading_def
        dated_pending_all_completed)
  from a b c d show ?thesis by blast
qed

text \<open>
  C7, with every reading at day 2: a completed task due at day 1 is not counted; with a
  pending task due the same day the count is 1, the count of the specification for
  day 2.
\<close>

theorem C7_overdue_count_witness:
  "list_all completed [done_task]
   \<and> overdue (stats (\<lambda>k. 172800000) [done_task]) = 0
   \<and> overdue (stats (\<lambda>k. 172800000) [task_a, done_task]) = 1
   \<and> overdue_spec 172800000 [task_a, done_task] = 1"
proof -
  have c: "list_all completed [done_task]" by (simp add: done_task_def)
  have o: "overdue (stats (\<lambda>k. 172800000) [task_a, done_task]) = 1"
    by (simp add: stats_def task_a_def done_task_def)
  have "\<forall>k<length (dated_pending [task_a, done_task]). (\<lambda>k. 172800000) k = (172800000::int)"
    by simp
  with C7_overdue_count [of "\<lambda>k. 172800000" "[task_a, done_task]" 172800000] o
  have s: "overdue_spec 172800000 [task_a, done_task] = 1" by simp
  from c C7_overdue_count [of "\<lambda>k. 172800000" "[done_task]" 172800000] o s
  show ?thesis by simp
qed

text \<open>
  C7 as stated fails when the clock advances during the scan. Two pending tasks are both
  due at day 1; the clock reads day 1 for the first and one millisecond later for the
  second. The statistic is 1, and no single current time gives the count 1: before or
  at day 1 the count of the specification is 0, after it 2.
\<close>

theorem C7_clock_tick_counterexample:
  "overdue (stats (\<lambda>k. if k = 0 then 86400000 else 86400001)
              [task_a, task_b\<lparr>dueDate := Some 86400000\<rparr>]) = 1
   \<and> \<not> (\<exists>now. overdue_spec now [task_a, task_b\<lparr>dueDate := Some 86400000\<rparr>] = 1)"
  by (simp add: stats_def overdue_spec_filter task_a_def task_b_def)

text \<open>
  C8 (as amended). For every collection and search term no task is in both the
  \<open>pending\<close> view and the \<open>completed\<close> view, and the two views together hold exactly the
  tasks that match the search text, each as often as the collection does. With the empty
  search term they hold the whole collection.
\<close>

theorem C8_pending_completed_split:
  "set (filteredTasks eng searchTerm ''pending'' tasks) \<inter> set (filteredTasks eng searchTerm ''completed'' tasks) = {}
   \<and> set (filteredTasks eng searchTerm ''pending'' tasks) \<union> set (filteredTasks eng searchTerm ''completed'' tasks)
       = {t \<in> set tasks. matchesSearch eng searchTerm t}
   \<and> mset (filteredTasks eng searchTerm ''pending'' tasks) + mset (filteredTasks eng searchTerm ''completed'' tasks)
       = mset (filter (matchesSearch eng searchTerm) tasks)
   \<and> mset (filteredTasks eng [] ''pending'' tasks) + mset (filteredTasks eng [] ''completed'' tasks)
       = mset tasks"
proof -
  have m: "mset (filteredTasks eng s ''pending'' tasks) + mset (filteredTasks eng s ''completed'' tasks)
       = mset (filter (matchesSearch eng s) tasks)" for s
    by (induction tasks) (auto simp: filteredTasks_def passesFilter_def)
  have e: "matchesSearch eng [] t" for t
    by (simp add: matchesSearch_def toLowerCase_Nil includes_s_empty)
  have "filter (matchesSearch eng []) tasks = tasks"
    by (simp add: e)
  with m [of "[]"] have "mset (filteredTasks eng [] ''pending'' tasks) + mset (filteredTasks eng [] ''completed'' tasks)
       = mset tasks" by simp
  moreover have "set (filteredTasks eng searchTerm ''pending'' tasks) \<inter> set (filteredTasks eng searchTerm ''completed'' tasks) = {}"
    by (auto simp: filteredTasks_def passesFilter_def)
  moreover have "set (filteredTasks eng searchTerm ''pending'' tasks) \<union> set (filteredTasks eng searchTerm ''completed'' tasks)
       = {t \<in> set tasks. matchesSearch eng searchTerm t}"
    by (auto simp: filteredTasks_def passesFilter_def)
  ultimately show ?thesis using m [of searchTerm] by blast
qed

text \<open>C8, at a pending and a completed task with the search term "a".\<close>

theorem C8_pending_completed_split_witness:
  "filteredTasks sample_engine (units ''a'') ''pending'' [task_a, done_task] = [task_a]
   \<and> filteredTasks sample_engine (units ''a'') ''completed'' [task_a, done_task] = [done_task]
   \<and> mset [task_a] + mset [done_task] = mset (filter (matchesSearch sample_engine (units ''a'')) [task_a, done_task])"
proof -
  have p: "filteredTasks sample_engine (units ''a'') ''pending'' [task_a, done_task] = [task_a]"
    by (simp add: filteredTasks_def passesFilter_def matchesSearch_def toLowerCase_def
        isAscii_def lowerUnit_def units_def task_a_def done_task_def)
  have c: "filteredTasks sample_engine (units ''a'') ''completed'' [task_a, done_task] = [done_task]"
    by (simp add: filteredTasks_def passesFilter_def matchesSearch_def toLowerCase_def
        isAscii_def lowerUnit_def units_def task_a_def done_task_def)
  from C8_pending_completed_split [of sample_engine "units ''a''" "[task_a, done_task]"]
  have "mset (filteredTasks sample_engine (units ''a'') ''pending'' [task_a, done_task])
          + mset (filteredTasks sample_engine (units ''a'') ''completed'' [task_a, done_task])
        = mset (filter (matchesSearch sample_engine (units ''a'')) [task_a, done_task])"
    by blast
  with p c show ?thesis by simp
qed

text \<open>
  C8 as stated fails: with the search term "zzz" the task "Pay rent" of the collection is
  in neither view.
\<close>

theorem C8_search_term_counterexample:
  "filteredTasks sample_engine (units ''zzz'') ''pending'' [task_a] = []
   \<and> filteredTasks sample_engine (units ''zzz'') ''completed'' [task_a] = []"
  by (simp add: filteredTasks_def passesFilter_def matchesSearch_def toLowerCase_def
      isAscii_def lowerUnit_def units_def task_a_def)


section \<open>The sort\<close>

subsection \<open>The insertion sort conforms to the standard\<close>










lemma consistent_comparatorD:
  assumes "consistent_comparator f S" "a \<in> S" "b \<in> S" "c \<in> S"
  shows "f a b \<noteq> NaN"
    and "sortCompare f a a = 0"
    and "sortCompare f a b = 0 \<Longrightarrow> sortCompare f b a = 0"
    and "sortCompare f a b = 0 \<Longrightarrow> sortCompare f b c = 0 \<Longrightarrow> sortCompare f a c = 0"
    and "sortCompare f a b < 0 \<Longrightarrow> sortCompare f b c < 0 \<Longrightarrow> sortCompare f a c < 0"
    and "0 < sortCompare f a b \<Longrightarrow> 0 < sortCompare f b c \<Longrightarrow> 0 < sortCompare f a c"
  using assms unfolding consistent_comparator_def by blast+


lemma consistent_flip_lt:
  assumes c: "consistent_comparator f S" and m: "a \<in> S" "b \<in> S"
    and l: "sortCompare f a b < 0"
  shows "0 < sortCompare f b a"
proof (rule ccontr)
  assume "\<not> 0 < sortCompare f b a"
  then consider "sortCompare f b a = 0" | "sortCompare f b a < 0" by linarith
  then show False
  proof cases
    case 1
    then have "sortCompare f a b = 0"
      by (rule consistent_comparatorD(3) [OF c m(2) m(1) m(1)])
    with l show False by simp
  next
    case 2
    with l have "sortCompare f a a < 0"
      by (rule consistent_comparatorD(5) [OF c m(1) m(2) m(1)])
    moreover have "sortCompare f a a = 0"
      by (rule consistent_comparatorD(2) [OF c m(1) m(1) m(1)])
    ultimately show False by simp
  qed
qed



subsection \<open>The comparator of the task list\<close>

lemma priorityOrder_inj:
  "priorityOrder p = Some n \<Longrightarrow> priorityOrder q = Some n \<Longrightarrow> p = q"
  by (simp add: priorityOrder_def split: if_splits)




lemma same_group_rank: "same_group a b \<Longrightarrow> rank a = rank b"
  by (simp add: same_group_def rank_def)

lemma rank_eq_iff:
  assumes "priorityOrder (priority a) \<noteq> None" "priorityOrder (priority b) \<noteq> None"
  shows "rank a = rank b \<longleftrightarrow> priority a = priority b"
proof -
  from assms obtain pa pb
    where p: "priorityOrder (priority a) = Some pa" "priorityOrder (priority b) = Some pb"
    by auto
  then show ?thesis
    using priorityOrder_inj [of "priority a" pa "priority b"] by (auto simp: rank_def)
qed




subsection \<open>The displayed order\<close>







end
